theory Spec2Isabelle
  imports Main
begin

section \<open>Values of the browser program\<close>

text \<open>
  The graph builders of \<open>GraphVisualization\<close> and the snapshot functions of
  \<open>DeadlockApp\<close>, as functions on the values the browser holds.

  A number is an integer or \<open>NaN\<close>: pids, counts and array lengths are integers, and
  \<open>parseInt\<close> gives \<open>NaN\<close> where it finds no digit. Integers are exact, as they are in
  the program for magnitudes below \<open>2^53\<close>, and \<open>String(n)\<close> is the decimal form, as it
  is below \<open>10^21\<close>. A string is a list of characters. A value is \<open>undefined\<close>,
  \<open>null\<close>, a boolean, a number or a string.
\<close>

datatype jsnum = JInt int | NaN

datatype jsval = JUndefined | JNull | JBool bool | JNum jsnum | JStr string

subsection \<open>\<open>String(n)\<close> and \<open>parseInt\<close>\<close>

definition digit_char :: "nat \<Rightarrow> char" where
  "digit_char d = char_of (48 + d)"

fun string_of_nat :: "nat \<Rightarrow> string" where
  "string_of_nat n =
     (if n < 10 then [digit_char n]
      else string_of_nat (n div 10) @ [digit_char (n mod 10)])"

declare string_of_nat.simps [simp del]

fun to_string :: "jsnum \<Rightarrow> string" where
  "to_string NaN = ''NaN''"
| "to_string (JInt i) =
     (if i < 0 then CHR ''-'' # string_of_nat (nat (- i)) else string_of_nat (nat i))"

text \<open>
  \<open>parseInt(s)\<close> without a radix: leading white space is skipped, a sign is read, a
  prefix \<open>0x\<close> selects radix 16, and the longest run of digits of the radix is the
  number; no digit at all gives \<open>NaN\<close>.
\<close>

definition is_ws :: "char \<Rightarrow> bool" where
  "is_ws c = (of_char c \<in> {9, 10, 11, 12, 13, 32, 160 :: nat})"

definition hex_val :: "char \<Rightarrow> nat option" where
  "hex_val c =
     (let n = of_char c :: nat in
      if 48 \<le> n \<and> n \<le> 57 then Some (n - 48)
      else if 97 \<le> n \<and> n \<le> 102 then Some (n - 87)
      else if 65 \<le> n \<and> n \<le> 70 then Some (n - 55)
      else None)"

definition is_radix_digit :: "nat \<Rightarrow> char \<Rightarrow> bool" where
  "is_radix_digit r c = (case hex_val c of Some d \<Rightarrow> d < r | None \<Rightarrow> False)"

definition radix_digit :: "char \<Rightarrow> nat" where
  "radix_digit c = (case hex_val c of Some d \<Rightarrow> d | None \<Rightarrow> 0)"

definition radix_value :: "nat \<Rightarrow> string \<Rightarrow> int" where
  "radix_value r z = foldl (\<lambda>a c. a * int r + int (radix_digit c)) 0 z"

definition strip_sign :: "string \<Rightarrow> bool \<times> string" where
  "strip_sign s =
     (case s of
        [] \<Rightarrow> (False, [])
      | c # cs \<Rightarrow>
          if c = CHR ''-'' then (True, cs)
          else if c = CHR ''+'' then (False, cs)
          else (False, s))"

definition strip_prefix :: "string \<Rightarrow> nat \<times> string" where
  "strip_prefix s =
     (case s of
        a # b # cs \<Rightarrow>
          if a = CHR ''0'' \<and> (b = CHR ''x'' \<or> b = CHR ''X'') then (16, cs) else (10, s)
      | _ \<Rightarrow> (10, s))"

definition parseInt :: "string \<Rightarrow> jsnum" where
  "parseInt inputString =
     (let (neg, s1) = strip_sign (dropWhile is_ws inputString);
          (r, s2) = strip_prefix s1;
          z = takeWhile (is_radix_digit r) s2
      in if z = [] then NaN
         else if neg then JInt (- radix_value r z)
         else JInt (radix_value r z))"

subsection \<open>Strings: \<open>split\<close>, destructuring and template literals\<close>

text \<open>
  \<open>key.split('_')\<close> with a one-character separator: every occurrence of the separator
  ends a piece, so the empty string gives one empty piece.
\<close>

fun split_on :: "char \<Rightarrow> string \<Rightarrow> string list" where
  "split_on sep [] = [[]]"
| "split_on sep (c # cs) =
     (if c = sep then [] # split_on sep cs
      else (case split_on sep cs of [] \<Rightarrow> [[c]] | w # ws \<Rightarrow> (c # w) # ws))"

text \<open>
  \<open>const [a, b] = parts\<close>: the first two elements, \<open>undefined\<close> where the array is too
  short, further elements dropped.
\<close>

definition destructure2 :: "string list \<Rightarrow> jsval \<times> jsval" where
  "destructure2 parts =
     (case parts of
        [] \<Rightarrow> (JUndefined, JUndefined)
      | [a] \<Rightarrow> (JStr a, JUndefined)
      | a # b # _ \<Rightarrow> (JStr a, JStr b))"

text \<open>The string a value contributes to a template literal, as in \<open>P${pid}\<close>.\<close>

fun template :: "jsval \<Rightarrow> string" where
  "template JUndefined = ''undefined''"
| "template JNull = ''null''"
| "template (JBool b) = (if b then ''true'' else ''false'')"
| "template (JNum n) = to_string n"
| "template (JStr s) = s"

text \<open>\<open>parseInt(v)\<close> first converts its argument to a string.\<close>

definition js_parseInt :: "jsval \<Rightarrow> jsnum" where
  "js_parseInt v = parseInt (template v)"

text \<open>\<open>a !== b\<close> on numbers: \<open>NaN\<close> differs from everything, itself included.\<close>

definition strict_ne :: "jsnum \<Rightarrow> jsnum \<Rightarrow> bool" where
  "strict_ne a b = (a = NaN \<or> b = NaN \<or> a \<noteq> b)"

subsection \<open>Objects and sets\<close>

text \<open>
  An object is the list of its own properties in the order \<open>Object.entries\<close> visits
  them: array-index keys (canonical decimal numerals below \<open>2^32 - 1\<close>) first, in
  ascending order, then the other keys in the order they were created. The keys of an
  object are pairwise distinct.
\<close>

type_synonym 'v jsobj = "(string \<times> 'v) list"

definition array_index :: "string \<Rightarrow> int option" where
  "array_index k =
     (if k \<noteq> [] \<and> list_all (is_radix_digit 10) k \<and> (length k = 1 \<or> hd k \<noteq> CHR ''0'')
         \<and> radix_value 10 k < 4294967295
      then Some (radix_value 10 k) else None)"

fun ins_index :: "int \<Rightarrow> string \<times> 'v \<Rightarrow> 'v jsobj \<Rightarrow> 'v jsobj" where
  "ins_index i e [] = [e]"
| "ins_index i e ((k, v) # rest) =
     (case array_index k of
        Some j \<Rightarrow> if j < i then (k, v) # ins_index i e rest else e # (k, v) # rest
      | None \<Rightarrow> e # (k, v) # rest)"

text \<open>\<open>obj[k] = v\<close>: an existing property keeps its place, a new one is created.\<close>

definition obj_put :: "'v jsobj \<Rightarrow> string \<Rightarrow> 'v \<Rightarrow> 'v jsobj" where
  "obj_put obj k v =
     (if k \<in> fst ` set obj then map (\<lambda>(k', v'). if k' = k then (k', v) else (k', v')) obj
      else (case array_index k of
              Some i \<Rightarrow> ins_index i (k, v) obj
            | None \<Rightarrow> obj @ [(k, v)]))"

text \<open>\<open>obj.k\<close> on an object of values: \<open>undefined\<close> when the property is missing.\<close>

definition obj_get :: "jsval jsobj \<Rightarrow> string \<Rightarrow> jsval" where
  "obj_get obj k = (case map_of obj k of Some v \<Rightarrow> v | None \<Rightarrow> JUndefined)"

text \<open>\<open>{...base, ...src}\<close>: the properties of \<open>src\<close> are written over \<open>base\<close> in order.\<close>

definition obj_spread :: "'v jsobj \<Rightarrow> 'v jsobj \<Rightarrow> 'v jsobj" where
  "obj_spread base src = foldl (\<lambda>obj (k, v). obj_put obj k v) base src"

text \<open>
  A \<open>Set\<close> is the list of its elements in insertion order, without repetition;
  \<open>add\<close> of a member changes nothing. Membership is \<open>SameValueZero\<close>, under which
  \<open>NaN\<close> equals itself: equality of the model's values.
\<close>

definition set_add :: "'a list \<Rightarrow> 'a \<Rightarrow> 'a list" where
  "set_add s x = (if x \<in> set s then s else s @ [x])"

definition new_Set :: "'a list \<Rightarrow> 'a list" where
  "new_Set xs = foldl set_add [] xs"

subsection \<open>Snapshots and graphs\<close>

text \<open>
  A snapshot as the browser receives it: \<open>processes\<close> is an array of objects with a
  \<open>pid\<close> field and further fields, \<open>resources\<close> maps a resource id to an object,
  \<open>allocation\<close> and \<open>request\<close> map a composite key to a count.
\<close>

record snapshot =
  processes :: "jsval jsobj list"
  resources :: "(jsval jsobj) jsobj"
  allocation :: "int jsobj"
  request :: "int jsobj"

datatype link_type = Allocation | Request | WaitFor

record link =
  link_source :: string
  link_target :: string
  link_type :: link_type
  link_weight :: "int option"
  link_id :: string

record graph =
  nodes :: "jsval jsobj list"
  links :: "link list"

type_synonym wfg = "(jsnum list) jsobj"

definition node_id :: "jsval jsobj \<Rightarrow> jsval" where
  "node_id n = obj_get n ''id''"


subsection \<open>\<open>GraphVisualization.buildRAGGraph\<close>\<close>

text \<open>\<open>const [pidStr, rid] = key.split('_')\<close>\<close>

definition parse_key :: "string \<Rightarrow> jsval \<times> jsval" where
  "parse_key key = destructure2 (split_on (CHR ''_'') key)"

definition process_node :: "jsval jsobj \<Rightarrow> jsval jsobj" where
  "process_node process =
     obj_spread
       [(''id'', JStr (''P'' @ template (obj_get process ''pid''))),
        (''name'', JStr (''P'' @ template (obj_get process ''pid''))),
        (''type'', JStr ''process''),
        (''pid'', obj_get process ''pid'')]
       process"

definition resource_node :: "string \<Rightarrow> jsval jsobj \<Rightarrow> jsval jsobj" where
  "resource_node rid resource =
     obj_spread
       [(''id'', JStr (''R'' @ rid)),
        (''name'', JStr (''R'' @ rid)),
        (''type'', JStr ''resource''),
        (''rid'', JStr rid),
        (''total'', obj_get resource ''total'')]
       resource"

definition allocation_link :: "string \<Rightarrow> int \<Rightarrow> link" where
  "allocation_link key count =
     (let (pidStr, rid) = parse_key key in
      \<lparr>link_source = ''P'' @ template pidStr,
       link_target = ''R'' @ template rid,
       link_type = Allocation,
       link_weight = Some count,
       link_id = ''alloc_'' @ key\<rparr>)"

definition request_link :: "string \<Rightarrow> int \<Rightarrow> link" where
  "request_link key count =
     (let (pidStr, rid) = parse_key key in
      \<lparr>link_source = ''R'' @ template rid,
       link_target = ''P'' @ template pidStr,
       link_type = Request,
       link_weight = Some count,
       link_id = ''req_'' @ key\<rparr>)"

definition buildRAGGraph :: "snapshot \<Rightarrow> graph" where
  "buildRAGGraph snapshot =
     (let nodes0 = [];
          links0 = [];
          nodes1 = foldl (\<lambda>ns process. ns @ [process_node process]) nodes0 (processes snapshot);
          nodes2 = foldl (\<lambda>ns (rid, resource). ns @ [resource_node rid resource]) nodes1
                     (resources snapshot);
          links1 = foldl (\<lambda>ls (key, count). if count > 0 then ls @ [allocation_link key count] else ls)
                     links0 (allocation snapshot);
          links2 = foldl (\<lambda>ls (key, count). if count > 0 then ls @ [request_link key count] else ls)
                     links1 (request snapshot)
      in \<lparr>nodes = nodes2, links = links2\<rparr>)"

subsection \<open>\<open>GraphVisualization.buildWFGGraph\<close>\<close>



text \<open>\<open>wfg[pid]\<close> for a key of \<open>wfg\<close>; the key is always present where this is used.\<close>

definition wfg_targets :: "wfg \<Rightarrow> string \<Rightarrow> jsnum list" where
  "wfg_targets wfg pid = (case map_of wfg pid of Some targets \<Rightarrow> targets | None \<Rightarrow> [])"


subsection \<open>\<open>DeadlockApp.buildWFGFromSnapshot\<close>\<close>

text \<open>The inner loop over the allocations, for one request of \<open>pid\<close> on \<open>rid\<close>.\<close>

definition blockers_of :: "int jsobj \<Rightarrow> jsnum \<Rightarrow> jsval \<Rightarrow> jsnum list" where
  "blockers_of allocations pid rid =
     foldl (\<lambda>blockers (allocKey, alloc).
              let (allocPidStr, allocRid) = parse_key allocKey;
                  allocPid = js_parseInt allocPidStr
              in if allocRid = rid \<and> alloc > 0 \<and> strict_ne allocPid pid
                 then blockers @ [allocPid] else blockers)
       [] allocations"

text \<open>
  One round of the outer loop. \<open>edges[pid]\<close> names the property \<open>String(pid)\<close>;
  \<open>if (!edges[pid]) edges[pid] = []\<close> creates it, and the push appends the blockers.
\<close>

definition request_step :: "int jsobj \<Rightarrow> wfg \<Rightarrow> string \<times> int \<Rightarrow> wfg" where
  "request_step allocations edges entry =
     (let (key, need) = entry in
      if need \<le> 0 then edges
      else
        let (pidStr, rid) = parse_key key;
            pid = js_parseInt pidStr;
            blockers = blockers_of allocations pid rid
        in if length blockers > 0
           then
             let edges1 = (if map_of edges (to_string pid) = None
                           then obj_put edges (to_string pid) [] else edges)
             in obj_put edges1 (to_string pid) (wfg_targets edges1 (to_string pid) @ blockers)
           else edges)"

definition derive_edges :: "snapshot \<Rightarrow> wfg" where
  "derive_edges snapshot = foldl (request_step (allocation snapshot)) [] (request snapshot)"

subsection \<open>The hover handler of \<open>GraphVisualization.renderGraph\<close>\<close>

text \<open>
  When the handler runs, the force layout has replaced the \<open>source\<close> and \<open>target\<close> of
  every link by the node with that id, so \<open>link.source.id\<close> is the id the builder wrote.
  The handler collects \<open>connectedNodes\<close> (a \<open>Set\<close>) and \<open>connectedLinks\<close> (an array),
  dims everything and restores the collected elements, which it finds by id.
\<close>

definition mouseover_connected :: "link list \<Rightarrow> string \<Rightarrow> string list \<times> link list" where
  "mouseover_connected graph_links d_id =
     foldl (\<lambda>(connectedNodes, connectedLinks) link.
              if link_source link = d_id \<or> link_target link = d_id
              then (set_add (set_add connectedNodes (link_source link)) (link_target link),
                    connectedLinks @ [link])
              else (connectedNodes, connectedLinks))
       ([], []) graph_links"

subsection \<open>The application state and \<open>DeadlockApp.saveSnapshot\<close>\<close>

text \<open>
  \<open>JSON.parse(JSON.stringify(v))\<close> builds a new value that shares nothing with \<open>v\<close>: a
  property whose value is \<open>undefined\<close> is left out and \<open>NaN\<close> becomes \<open>null\<close>.
\<close>

fun json_value :: "jsval \<Rightarrow> jsval" where
  "json_value (JNum NaN) = JNull"
| "json_value v = v"

definition json_copy_obj :: "jsval jsobj \<Rightarrow> jsval jsobj" where
  "json_copy_obj obj = map (\<lambda>(k, v). (k, json_value v)) (filter (\<lambda>(k, v). v \<noteq> JUndefined) obj)"

definition json_copy_snapshot :: "snapshot \<Rightarrow> snapshot" where
  "json_copy_snapshot s =
     \<lparr>processes = map json_copy_obj (processes s),
      resources = map (\<lambda>(rid, resource). (rid, json_copy_obj resource)) (resources s),
      allocation = allocation s,
      request = request s\<rparr>"

definition json_copy_wfg :: "wfg \<Rightarrow> (jsval list) jsobj" where
  "json_copy_wfg w = map (\<lambda>(k, targets). (k, map (\<lambda>t. json_value (JNum t)) targets)) w"

text \<open>
  The arrays inside \<open>currentCycles\<close> are the only objects a saved snapshot can share
  with the live state, so they live in a store and a cycle set is the list of their
  addresses; everything else is a value.
\<close>

type_synonym addr = nat

record saved_snapshot =
  snapshot_id :: int
  name :: string
  timestamp :: string
  data :: snapshot
  cycles :: "addr list"
  wfg :: "(jsval list) jsobj option"

record app_state =
  currentSnapshot :: "snapshot option"
  currentWFG :: "wfg option"
  currentCycles :: "addr list option"
  savedSnapshots :: "saved_snapshot list"
  cycle_store :: "addr \<Rightarrow> jsnum list"

text \<open>\<open>now\<close> is \<open>Date.now()\<close> and \<open>isoTime\<close> is \<open>new Date().toISOString()\<close>.\<close>

definition saveSnapshot :: "int \<Rightarrow> string \<Rightarrow> app_state \<Rightarrow> app_state" where
  "saveSnapshot now isoTime st =
     (case currentSnapshot st of
        None \<Rightarrow> st
      | Some cur \<Rightarrow>
          let savedSnapshot =
                \<lparr>snapshot_id = now,
                 name = ''Snapshot '' @ string_of_nat (length (savedSnapshots st) + 1),
                 timestamp = isoTime,
                 data = json_copy_snapshot cur,
                 cycles = (case currentCycles st of Some cs \<Rightarrow> cs | None \<Rightarrow> []),
                 wfg = (case currentWFG st of Some w \<Rightarrow> Some (json_copy_wfg w) | None \<Rightarrow> None)\<rparr>
          in st\<lparr>savedSnapshots := savedSnapshots st @ [savedSnapshot]\<rparr>)"

text \<open>What a reader of a saved snapshot sees: its cycles are read through the store.\<close>

definition saved_cycles :: "app_state \<Rightarrow> saved_snapshot \<Rightarrow> jsnum list list" where
  "saved_cycles st sv = map (cycle_store st) (cycles sv)"

text \<open>
  Later changes of the live state. Replacing or rewriting the live snapshot, the live
  WFG or the outer array of the live cycles touches only the live fields; writing into
  one of the cycle arrays changes the store.
\<close>

datatype mutation =
  SetCurrentSnapshot "snapshot option"
| SetCurrentWFG "wfg option"
| SetCurrentCycles "addr list option"
| WriteCycleArray addr "jsnum list"

fun mutate :: "mutation \<Rightarrow> app_state \<Rightarrow> app_state" where
  "mutate (SetCurrentSnapshot s) st = st\<lparr>currentSnapshot := s\<rparr>"
| "mutate (SetCurrentWFG w) st = st\<lparr>currentWFG := w\<rparr>"
| "mutate (SetCurrentCycles cs) st = st\<lparr>currentCycles := cs\<rparr>"
| "mutate (WriteCycleArray a v) st = st\<lparr>cycle_store := (cycle_store st)(a := v)\<rparr>"

text \<open>\<open>DeadlockApp.buildWFGFromSnapshot\<close> stores the derived adjacency in the state.\<close>

definition buildWFGFromSnapshot :: "app_state \<Rightarrow> app_state" where
  "buildWFGFromSnapshot st =
     (case currentSnapshot st of
        None \<Rightarrow> st
      | Some cur \<Rightarrow> st\<lparr>currentWFG := Some (derive_edges cur)\<rparr>)"

subsection \<open>\<open>DeadlockApp.displayDifferences\<close>\<close>

record difference =
  diff_type :: string
  diff_icon :: string
  diff_text :: string

definition process_added :: "jsval \<Rightarrow> difference" where
  "process_added pid =
     \<lparr>diff_type = ''added'', diff_icon = ''fas fa-plus-circle'',
      diff_text = ''Process P'' @ template pid @ '' was added''\<rparr>"

definition process_removed :: "jsval \<Rightarrow> difference" where
  "process_removed pid =
     \<lparr>diff_type = ''removed'', diff_icon = ''fas fa-minus-circle'',
      diff_text = ''Process P'' @ template pid @ '' was removed''\<rparr>"

definition cycles_changed :: "nat \<Rightarrow> nat \<Rightarrow> difference" where
  "cycles_changed cyclesA cyclesB =
     (let change = int cyclesB - int cyclesA in
      \<lparr>diff_type = (if change > 0 then ''removed'' else ''added''),
       diff_icon = (if change > 0 then ''fas fa-exclamation-triangle'' else ''fas fa-check-circle''),
       diff_text = ''Deadlock cycles changed from '' @ string_of_nat cyclesA @ '' to ''
                   @ string_of_nat cyclesB @ '' ('' @ (if change > 0 then ''+'' else '''')
                   @ to_string (JInt change) @ '')''\<rparr>)"

definition allocations_changed :: "nat \<Rightarrow> nat \<Rightarrow> difference" where
  "allocations_changed allocA allocB =
     \<lparr>diff_type = ''changed'', diff_icon = ''fas fa-exchange-alt'',
      diff_text = ''Resource allocations changed from '' @ string_of_nat allocA @ '' to ''
                  @ string_of_nat allocB\<rparr>"

definition requests_changed :: "nat \<Rightarrow> nat \<Rightarrow> difference" where
  "requests_changed reqA reqB =
     \<lparr>diff_type = ''changed'', diff_icon = ''fas fa-exchange-alt'',
      diff_text = ''Resource requests changed from '' @ string_of_nat reqA @ '' to ''
                  @ string_of_nat reqB\<rparr>"

text \<open>The array \<open>differences\<close> as it stands when it is rendered.\<close>

definition displayDifferences :: "saved_snapshot \<Rightarrow> saved_snapshot \<Rightarrow> difference list" where
  "displayDifferences snapshotA snapshotB =
     (let differences0 = [];
          processesA = new_Set (map (\<lambda>p. obj_get p ''pid'') (processes (data snapshotA)));
          processesB = new_Set (map (\<lambda>p. obj_get p ''pid'') (processes (data snapshotB)));
          differences1 = foldl (\<lambda>ds pid. if pid \<notin> set processesA then ds @ [process_added pid] else ds)
                           differences0 processesB;
          differences2 = foldl (\<lambda>ds pid. if pid \<notin> set processesB then ds @ [process_removed pid] else ds)
                           differences1 processesA;
          cyclesA = length (cycles snapshotA);
          cyclesB = length (cycles snapshotB);
          differences3 = (if cyclesA \<noteq> cyclesB then differences2 @ [cycles_changed cyclesA cyclesB]
                          else differences2);
          allocA = length (allocation (data snapshotA));
          allocB = length (allocation (data snapshotB));
          differences4 = (if allocA \<noteq> allocB then differences3 @ [allocations_changed allocA allocB]
                          else differences3);
          reqA = length (request (data snapshotA));
          reqB = length (request (data snapshotB));
          differences5 = (if reqA \<noteq> reqB then differences4 @ [requests_changed reqA reqB]
                          else differences4)
      in differences5)"

subsection \<open>Properties stated about the results\<close>

text \<open>The pids \<open>displayDifferences\<close> reads off a saved snapshot, in order.\<close>

definition snapshot_pids :: "saved_snapshot \<Rightarrow> jsval list" where
  "snapshot_pids sv = map (\<lambda>p. obj_get p ''pid'') (processes (data sv))"

text \<open>The entry for the cycle count is the one with a warning or a check icon.\<close>

definition is_cycle_entry :: "difference \<Rightarrow> bool" where
  "is_cycle_entry d =
     (diff_icon d = ''fas fa-exclamation-triangle'' \<or> diff_icon d = ''fas fa-check-circle'')"

text \<open>A link touches a node id when it starts or ends there.\<close>

definition incident :: "string \<Rightarrow> link \<Rightarrow> bool" where
  "incident d_id l = (link_source l = d_id \<or> link_target l = d_id)"

text \<open>A saved snapshot holding the given data and cycle arrays, for concrete instances.\<close>

definition saved_of :: "snapshot \<Rightarrow> addr list \<Rightarrow> saved_snapshot" where
  "saved_of s cs =
     \<lparr>snapshot_id = 0, name = ''Snapshot 1'', timestamp = [], data = s, cycles = cs, wfg = None\<rparr>"

definition with_pids :: "int list \<Rightarrow> snapshot" where
  "with_pids ps =
     \<lparr>processes = map (\<lambda>i. [(''pid'', JNum (JInt i))]) ps, resources = [], allocation = [],
      request = []\<rparr>"

text \<open>The pid and the resource id the builders read off a composite key.\<close>

definition key_pid :: "string \<Rightarrow> jsnum" where
  "key_pid key = js_parseInt (fst (parse_key key))"

definition key_rid :: "string \<Rightarrow> jsval" where
  "key_rid key = snd (parse_key key)"

text \<open>The adjacency \<open>w\<close> has an edge from \<open>p\<close> to \<open>h\<close>: \<open>h\<close> is listed under \<open>String(p)\<close>.\<close>

definition wfg_edge :: "wfg \<Rightarrow> jsnum \<Rightarrow> jsnum \<Rightarrow> bool" where
  "wfg_edge w p h = (h \<in> set (wfg_targets w (to_string p)))"

text \<open>The chain \<open>P1 -alloc-> R1 -req-> P2\<close>; a node \<open>P3\<close> of the graph touches no link.\<close>

definition chain_links :: "link list" where
  "chain_links =
     [\<lparr>link_source = ''P1'', link_target = ''R1'', link_type = Allocation,
       link_weight = Some 1, link_id = ''alloc_1_1''\<rparr>,
      \<lparr>link_source = ''R1'', link_target = ''P2'', link_type = Request,
       link_weight = Some 1, link_id = ''req_2_1''\<rparr>]"










text \<open>Concrete snapshots: which keys they hold is what matters.\<close>

definition snapshot_of :: "int jsobj \<Rightarrow> int jsobj \<Rightarrow> snapshot" where
  "snapshot_of alloc req = \<lparr>processes = [], resources = [], allocation = alloc, request = req\<rparr>"

definition disk_snapshot :: snapshot where
  "disk_snapshot =
     \<lparr>processes = [[(''pid'', JNum (JInt 1))]],
      resources = [(''disk_0'', [(''total'', JNum (JInt 2))])],
      allocation = [(''1_disk_0'', 2)],
      request = []\<rparr>"





text \<open>
  A live state with one detected cycle \<open>[1, 2]\<close>, stored at address 0, and the state
  after \<open>saveSnapshot\<close> has run on it.
\<close>

definition live_state :: app_state where
  "live_state =
     \<lparr>currentSnapshot = Some (with_pids [1, 2]),
      currentWFG = Some [(''1'', [JInt 2]), (''2'', [JInt 1])],
      currentCycles = Some [0],
      savedSnapshots = [],
      cycle_store = (\<lambda>_. [])(0 := [JInt 1, JInt 2])\<rparr>"

definition saved_state :: app_state where
  "saved_state = saveSnapshot 0 [] live_state"

section \<open>Facts about the model\<close>

subsection \<open>Decimal forms are read back by \<open>parseInt\<close>\<close>

lemma hex_val_digit_char: "d < 10 \<Longrightarrow> hex_val (digit_char d) = Some d"
  by (simp add: hex_val_def digit_char_def)

lemma is_dec_digit_char: "d < 10 \<Longrightarrow> is_radix_digit 10 (digit_char d)"
  by (simp add: is_radix_digit_def hex_val_digit_char)

lemma radix_digit_char: "d < 10 \<Longrightarrow> radix_digit (digit_char d) = d"
  by (simp add: radix_digit_def hex_val_digit_char)

lemma string_of_nat_digits: "list_all (is_radix_digit 10) (string_of_nat n)"
proof (induction n rule: string_of_nat.induct)
  case (1 n)
  show ?case
  proof (cases "n < 10")
    case True
    then show ?thesis by (subst string_of_nat.simps) (simp add: is_dec_digit_char)
  next
    case False
    with 1 show ?thesis by (subst string_of_nat.simps) (simp add: is_dec_digit_char)
  qed
qed

lemma string_of_nat_nonempty: "string_of_nat n \<noteq> []"
  by (subst string_of_nat.simps) simp

lemma radix_value_snoc: "radix_value r (z @ [c]) = radix_value r z * int r + int (radix_digit c)"
  by (simp add: radix_value_def)

lemma radix_value_string_of_nat: "radix_value 10 (string_of_nat n) = int n"
proof (induction n rule: string_of_nat.induct)
  case (1 n)
  show ?case
  proof (cases "n < 10")
    case True
    then show ?thesis
      by (subst string_of_nat.simps) (simp add: radix_value_def radix_digit_char)
  next
    case False
    have "int (n div 10) * 10 + int (n mod 10) = int n"
      by (metis div_mult_mod_eq of_nat_add of_nat_mult of_nat_numeral)
    with False 1 show ?thesis
      by (subst string_of_nat.simps) (simp add: radix_value_snoc radix_digit_char)
  qed
qed

lemma dec_digit_facts:
  assumes "is_radix_digit 10 c"
  shows "\<not> is_ws c" "c \<noteq> CHR ''-''" "c \<noteq> CHR ''+''" "c \<noteq> CHR ''x''" "c \<noteq> CHR ''X''"
    "c \<noteq> CHR ''N''" "c \<noteq> CHR ''_''"
  using assms
  by (auto simp: is_radix_digit_def hex_val_def is_ws_def Let_def split: if_splits)

lemma parseInt_digits:
  assumes "list_all (is_radix_digit 10) s" "s \<noteq> []"
  shows "parseInt s = JInt (radix_value 10 s)"
proof -
  obtain c cs where s: "s = c # cs" using assms(2) by (cases s) auto
  have c: "is_radix_digit 10 c" using assms(1) s by simp
  have 1: "dropWhile is_ws s = s" using dec_digit_facts(1)[OF c] s by simp
  have 2: "strip_sign s = (False, s)"
    using dec_digit_facts(2,3)[OF c] s by (simp add: strip_sign_def)
  have 3: "strip_prefix s = (10, s)"
  proof (cases cs)
    case Nil
    then show ?thesis using s by (simp add: strip_prefix_def)
  next
    case (Cons b bs)
    then have "is_radix_digit 10 b" using assms(1) s by simp
    from dec_digit_facts(4,5)[OF this] show ?thesis
      using s Cons by (simp add: strip_prefix_def)
  qed
  have 4: "takeWhile (is_radix_digit 10) s = s"
    using assms(1) by (simp add: list_all_iff)
  show ?thesis by (simp add: parseInt_def 1 2 3 4 assms(2))
qed

lemma parseInt_neg_digits:
  assumes "list_all (is_radix_digit 10) s" "s \<noteq> []"
  shows "parseInt (CHR ''-'' # s) = JInt (- radix_value 10 s)"
proof -
  obtain c cs where s: "s = c # cs" using assms(2) by (cases s) auto
  have c: "is_radix_digit 10 c" using assms(1) s by simp
  have 0: "\<not> is_ws (CHR ''-'')" by (simp add: is_ws_def)
  have 1: "strip_sign (CHR ''-'' # s) = (True, s)" by (simp add: strip_sign_def)
  have 3: "strip_prefix s = (10, s)"
  proof (cases cs)
    case Nil
    then show ?thesis using s by (simp add: strip_prefix_def)
  next
    case (Cons b bs)
    then have "is_radix_digit 10 b" using assms(1) s by simp
    from dec_digit_facts(4,5)[OF this] show ?thesis
      using s Cons by (simp add: strip_prefix_def)
  qed
  have 4: "takeWhile (is_radix_digit 10) s = s"
    using assms(1) by (simp add: list_all_iff)
  show ?thesis by (simp add: parseInt_def 0 1 3 4 assms(2))
qed

lemma parseInt_to_string: "parseInt (to_string p) = p"
proof (cases p)
  case NaN
  then show ?thesis by (simp add: parseInt_def strip_sign_def strip_prefix_def is_ws_def
        is_radix_digit_def hex_val_def)
next
  case (JInt i)
  show ?thesis
  proof (cases "i < 0")
    case True
    then show ?thesis
      using JInt parseInt_neg_digits[OF string_of_nat_digits string_of_nat_nonempty, of "nat (- i)"]
      by (simp add: radix_value_string_of_nat)
  next
    case False
    then show ?thesis
      using JInt parseInt_digits[OF string_of_nat_digits string_of_nat_nonempty, of "nat i"]
      by (simp add: radix_value_string_of_nat)
  qed
qed

lemma to_string_inject: "to_string p = to_string q \<Longrightarrow> p = q"
  by (metis parseInt_to_string)

subsection \<open>Loops that push, and sets\<close>


lemma foldl_push_filter:
  "foldl (\<lambda>acc x. if P x then acc @ [f x] else acc) acc xs = acc @ map f (filter P xs)"
  by (induction xs arbitrary: acc) simp_all

lemma set_foldl_set_add: "set (foldl set_add s xs) = set s \<union> set xs"
  by (induction xs arbitrary: s) (auto simp: set_add_def)

lemma distinct_foldl_set_add: "distinct s \<Longrightarrow> distinct (foldl set_add s xs)"
  by (induction xs arbitrary: s) (auto simp: set_add_def)

lemma set_new_Set: "set (new_Set xs) = set xs"
  by (simp add: new_Set_def set_foldl_set_add)

lemma distinct_new_Set: "distinct (new_Set xs)"
  by (simp add: new_Set_def distinct_foldl_set_add)

subsection \<open>The snapshot differ\<close>

lemma displayDifferences_segments:
  "displayDifferences A B =
     map process_added (filter (\<lambda>pid. pid \<notin> set (snapshot_pids A)) (new_Set (snapshot_pids B)))
     @ map process_removed (filter (\<lambda>pid. pid \<notin> set (snapshot_pids B)) (new_Set (snapshot_pids A)))
     @ (if length (cycles A) \<noteq> length (cycles B)
        then [cycles_changed (length (cycles A)) (length (cycles B))] else [])
     @ (if length (allocation (data A)) \<noteq> length (allocation (data B))
        then [allocations_changed (length (allocation (data A))) (length (allocation (data B)))]
        else [])
     @ (if length (request (data A)) \<noteq> length (request (data B))
        then [requests_changed (length (request (data A))) (length (request (data B)))]
        else [])"
  by (simp add: displayDifferences_def Let_def foldl_push_filter snapshot_pids_def set_new_Set)

lemma not_cycle_entry [simp]:
  "\<not> is_cycle_entry (process_added p)" "\<not> is_cycle_entry (process_removed p)"
  "\<not> is_cycle_entry (allocations_changed a b)" "\<not> is_cycle_entry (requests_changed a b)"
  by (simp_all add: is_cycle_entry_def process_added_def process_removed_def
      allocations_changed_def requests_changed_def)

lemma is_cycle_entry_cycles_changed [simp]: "is_cycle_entry (cycles_changed a b)"
  by (simp add: is_cycle_entry_def cycles_changed_def Let_def)

lemma filter_cycle_entries:
  "filter is_cycle_entry (displayDifferences A B) =
     (if length (cycles A) \<noteq> length (cycles B)
      then [cycles_changed (length (cycles A)) (length (cycles B))] else [])"
  by (simp add: displayDifferences_segments filter_empty_conv)

subsection \<open>The hover handler\<close>

lemma mouseover_loop:
  "foldl (\<lambda>(connectedNodes, connectedLinks) link.
              if link_source link = d \<or> link_target link = d
              then (set_add (set_add connectedNodes (link_source link)) (link_target link),
                    connectedLinks @ [link])
              else (connectedNodes, connectedLinks))
       (ns, cl) ls
   = (foldl set_add ns (concat (map (\<lambda>l. [link_source l, link_target l]) (filter (incident d) ls))),
      cl @ filter (incident d) ls)"
  by (induction ls arbitrary: ns cl) (simp_all add: incident_def)

lemma mouseover_connected_eq:
  "mouseover_connected ls d
   = (new_Set (concat (map (\<lambda>l. [link_source l, link_target l]) (filter (incident d) ls))),
      filter (incident d) ls)"
  by (simp add: mouseover_connected_def mouseover_loop new_Set_def)

subsection \<open>Objects\<close>

lemma map_of_ins_index:
  "k \<notin> fst ` set obj \<Longrightarrow> map_of (ins_index i (k, v) obj) = (map_of obj)(k \<mapsto> v)"
proof (induction obj)
  case Nil
  then show ?case by simp
next
  case (Cons e obj)
  obtain k' v' where e: "e = (k', v')" by (cases e)
  with Cons have "k' \<noteq> k" and "k \<notin> fst ` set obj" by auto
  with Cons.IH e show ?case
    by (auto simp: fun_eq_iff split: option.splits)
qed


lemma map_of_update_in_place:
  "map_of (map (\<lambda>(k', v'). if k' = k then (k', v) else (k', v')) obj) k'' =
     (if k'' = k then map_option (\<lambda>_. v) (map_of obj k) else map_of obj k'')"
  by (induction obj) auto

lemma map_of_obj_put: "map_of (obj_put obj k v) = (map_of obj)(k \<mapsto> v)"
proof (rule ext)
  fix k'
  show "map_of (obj_put obj k v) k' = ((map_of obj)(k \<mapsto> v)) k'"
  proof (cases "k \<in> fst ` set obj")
    case True
    then obtain v0 where v0: "map_of obj k = Some v0"
      by (metis map_of_eq_None_iff not_Some_eq)
    have "obj_put obj k v = map (\<lambda>(k', v'). if k' = k then (k', v) else (k', v')) obj"
      using True by (simp add: obj_put_def)
    then show ?thesis by (simp add: map_of_update_in_place v0)
  next
    case False
    then have none: "map_of obj k = None" by (simp add: map_of_eq_None_iff)
    show ?thesis
    proof (cases "array_index k")
      case None
      then have "obj_put obj k v = obj @ [(k, v)]" using False by (simp add: obj_put_def)
      then show ?thesis using none by (simp add: map_add_def split: option.splits)
    next
      case (Some i)
      then have "obj_put obj k v = ins_index i (k, v) obj" using False by (simp add: obj_put_def)
      then show ?thesis by (simp add: map_of_ins_index[OF False])
    qed
  qed
qed




lemma wfg_targets_obj_put:
  "wfg_targets (obj_put w k v) k' = (if k' = k then v else wfg_targets w k')"
  by (simp add: wfg_targets_def map_of_obj_put)



subsection \<open>Composite keys\<close>

lemma split_on_nonempty: "split_on sep s \<noteq> []"
  by (induction s) (auto split: list.splits)

lemma split_on_no_sep: "sep \<notin> set s \<Longrightarrow> split_on sep s = [s]"
  by (induction s) auto

lemma split_on_first_sep:
  "sep \<notin> set a \<Longrightarrow> split_on sep (a @ sep # b) = a # split_on sep b"
  by (induction a) auto

lemma parse_key_no_sep: "CHR ''_'' \<notin> set key \<Longrightarrow> parse_key key = (JStr key, JUndefined)"
  by (simp add: parse_key_def split_on_no_sep destructure2_def)


lemma hd_split_on: "hd (split_on sep s) = takeWhile (\<lambda>c. c \<noteq> sep) s"
  by (induction s) (auto split: list.splits simp: split_on_nonempty)

text \<open>Only the piece between the first and the second \<open>_\<close> is the resource id.\<close>

lemma parse_key_second_piece:
  "CHR ''_'' \<notin> set a \<Longrightarrow>
     parse_key (a @ CHR ''_'' # b) = (JStr a, JStr (takeWhile (\<lambda>c. c \<noteq> CHR ''_'') b))"
proof -
  assume a: "CHR ''_'' \<notin> set a"
  obtain w ws where w: "split_on (CHR ''_'') b = w # ws"
    using split_on_nonempty[of "CHR ''_''" b] by (cases "split_on (CHR ''_'') b") auto
  then have "w = takeWhile (\<lambda>c. c \<noteq> CHR ''_'') b"
    using hd_split_on[of "CHR ''_''" b] by simp
  with a w show ?thesis
    by (simp add: parse_key_def split_on_first_sep destructure2_def)
qed




subsection \<open>The shape of the built graphs\<close>


lemma foldl_push_filter_prod:
  "foldl (\<lambda>acc (a, b). if P a b then acc @ [f a b] else acc) acc xs
     = acc @ map (\<lambda>(a, b). f a b) (filter (\<lambda>(a, b). P a b) xs)"
  by (induction xs arbitrary: acc) auto


lemma links_buildRAGGraph:
  "links (buildRAGGraph s)
     = map (\<lambda>(k, c). allocation_link k c) (filter (\<lambda>(k, c). c > 0) (allocation s))
       @ map (\<lambda>(k, c). request_link k c) (filter (\<lambda>(k, c). c > 0) (request s))"
  by (simp add: buildRAGGraph_def Let_def foldl_push_filter_prod)

subsection \<open>The derived adjacency\<close>

lemma blockers_of_eq:
  "blockers_of allocations pid rid
   = map (\<lambda>(k, c). key_pid k)
       (filter (\<lambda>(k, c). key_rid k = rid \<and> c > 0 \<and> strict_ne (key_pid k) pid) allocations)"
proof -
  have step: "(\<lambda>blockers (allocKey, alloc).
              let (allocPidStr, allocRid) = parse_key allocKey;
                  allocPid = js_parseInt allocPidStr
              in if allocRid = rid \<and> alloc > 0 \<and> strict_ne allocPid pid
                 then blockers @ [allocPid] else blockers)
     = (\<lambda>blockers x. if key_rid (fst x) = rid \<and> snd x > 0 \<and> strict_ne (key_pid (fst x)) pid
                       then blockers @ [key_pid (fst x)] else blockers)"
    by (auto simp: fun_eq_iff key_pid_def key_rid_def Let_def case_prod_beta)
  have shape: "(\<lambda>(k, c). key_pid k) = (\<lambda>x. key_pid (fst x))"
    "(\<lambda>(k, c). key_rid k = rid \<and> c > 0 \<and> strict_ne (key_pid k) pid)
       = (\<lambda>x. key_rid (fst x) = rid \<and> snd x > 0 \<and> strict_ne (key_pid (fst x)) pid)"
    by (auto simp: fun_eq_iff)
  show ?thesis
    unfolding blockers_of_def step foldl_push_filter shape by simp
qed

lemma request_step_eq:
  "request_step a e (key, need) =
     (if need \<le> 0 \<or> blockers_of a (key_pid key) (key_rid key) = [] then e
      else obj_put
             (if map_of e (to_string (key_pid key)) = None
              then obj_put e (to_string (key_pid key)) [] else e)
             (to_string (key_pid key))
             (wfg_targets
                (if map_of e (to_string (key_pid key)) = None
                 then obj_put e (to_string (key_pid key)) [] else e)
                (to_string (key_pid key))
              @ blockers_of a (key_pid key) (key_rid key)))"
  by (simp add: request_step_def Let_def key_pid_def key_rid_def case_prod_beta)

lemma wfg_targets_request_step:
  "wfg_targets (request_step a e (key, need)) k
   = wfg_targets e k
     @ (if need > 0 \<and> k = to_string (key_pid key)
        then blockers_of a (key_pid key) (key_rid key) else [])"
proof (cases "need \<le> 0 \<or> blockers_of a (key_pid key) (key_rid key) = []")
  case True
  then show ?thesis by (auto simp: request_step_eq)
next
  case False
  show ?thesis
  proof (cases "map_of e (to_string (key_pid key))")
    case None
    with False show ?thesis
      by (simp add: request_step_eq wfg_targets_obj_put) (simp add: wfg_targets_def)
  next
    case (Some ts)
    with False show ?thesis
      by (simp add: request_step_eq wfg_targets_obj_put)
  qed
qed



lemma wfg_targets_derive_loop:
  "wfg_targets (foldl (request_step a) e reqs) k
   = wfg_targets e k
     @ concat (map (\<lambda>(key, need). if need > 0 \<and> k = to_string (key_pid key)
                                  then blockers_of a (key_pid key) (key_rid key) else [])
                reqs)"
proof (induction reqs arbitrary: e)
  case Nil
  then show ?case by simp
next
  case (Cons r reqs)
  obtain key need where r: "r = (key, need)" by (cases r)
  show ?case
    by (simp add: r Cons.IH wfg_targets_request_step)
qed



lemma wfg_targets_empty: "wfg_targets [] k = []"
  by (simp add: wfg_targets_def)


lemma wfg_targets_derive_edges:
  "wfg_targets (derive_edges s) k
   = concat (map (\<lambda>(key, need). if need > 0 \<and> k = to_string (key_pid key)
                                 then blockers_of (allocation s) (key_pid key) (key_rid key) else [])
               (request s))"
  by (simp add: derive_edges_def wfg_targets_derive_loop wfg_targets_empty)


lemma mem_blockers_of:
  "h \<in> set (blockers_of a p rid)
   \<longleftrightarrow> (\<exists>(akey, alloc) \<in> set a.
          alloc > 0 \<and> key_pid akey = h \<and> key_rid akey = rid \<and> strict_ne h p)"
  by (auto simp: blockers_of_eq)

lemma wfg_edge_derive_edges:
  "wfg_edge (derive_edges s) p h
   \<longleftrightarrow> (\<exists>(key, need) \<in> set (request s). \<exists>(akey, alloc) \<in> set (allocation s).
          need > 0 \<and> alloc > 0 \<and> key_pid key = p \<and> key_pid akey = h
          \<and> key_rid akey = key_rid key \<and> strict_ne h p)"
proof
  assume "wfg_edge (derive_edges s) p h"
  then obtain key need where kn: "(key, need) \<in> set (request s)" "need > 0"
      "to_string p = to_string (key_pid key)"
      "h \<in> set (blockers_of (allocation s) (key_pid key) (key_rid key))"
    by (auto simp: wfg_edge_def wfg_targets_derive_edges split: if_splits)
  from kn(3) have p: "key_pid key = p" by (metis to_string_inject)
  from kn(4) obtain akey alloc where "(akey, alloc) \<in> set (allocation s)" "alloc > 0"
      "key_pid akey = h" "key_rid akey = key_rid key" "strict_ne h (key_pid key)"
    by (auto simp: mem_blockers_of)
  with kn(1,2) p show "\<exists>(key, need) \<in> set (request s). \<exists>(akey, alloc) \<in> set (allocation s).
          need > 0 \<and> alloc > 0 \<and> key_pid key = p \<and> key_pid akey = h
          \<and> key_rid akey = key_rid key \<and> strict_ne h p"
    by blast
next
  assume "\<exists>(key, need) \<in> set (request s). \<exists>(akey, alloc) \<in> set (allocation s).
          need > 0 \<and> alloc > 0 \<and> key_pid key = p \<and> key_pid akey = h
          \<and> key_rid akey = key_rid key \<and> strict_ne h p"
  then obtain key need akey alloc where kn: "(key, need) \<in> set (request s)" "need > 0"
      "key_pid key = p"
    and ak: "(akey, alloc) \<in> set (allocation s)" "alloc > 0" "key_pid akey = h"
      "key_rid akey = key_rid key" "strict_ne h p"
    by blast
  from ak have "h \<in> set (blockers_of (allocation s) p (key_rid key))"
    unfolding mem_blockers_of by blast
  with kn show "wfg_edge (derive_edges s) p h"
    unfolding wfg_edge_def wfg_targets_derive_edges by force
qed

subsection \<open>Nodes and links of the wait-for graph\<close>















subsection \<open>Nodes and links of the resource allocation graph\<close>















subsection \<open>Saved snapshots under later changes of the live state\<close>

lemma savedSnapshots_mutate: "savedSnapshots (mutate m st) = savedSnapshots st"
  by (cases m) simp_all

lemma saved_cycles_mutate_live:
  "(\<And>a v. m \<noteq> WriteCycleArray a v) \<Longrightarrow> saved_cycles (mutate m st) sv = saved_cycles st sv"
proof (cases m)
  case (WriteCycleArray a v)
  moreover assume "\<And>a v. m \<noteq> WriteCycleArray a v"
  ultimately show ?thesis by blast
qed (simp_all add: saved_cycles_def)

lemma saved_cycles_write_elsewhere:
  "a \<notin> set (cycles sv) \<Longrightarrow> saved_cycles (mutate (WriteCycleArray a v) st) sv = saved_cycles st sv"
  by (simp add: saved_cycles_def)

section \<open>The snapshot differ: order of the entries\<close>



section \<open>The snapshot differ: the entry for the cycle count\<close>

text \<open>
  C1, as the code has it. When the two cycle sets differ in length there is exactly one
  cycle-count entry. It carries the type \<open>removed\<close> and the warning icon when B has
  more cycles than A, and the type \<open>added\<close> and the check icon when B has fewer: the
  type names the style of the row, and the two are the other way round from the claim.
\<close>

theorem cycle_count_entry:
  "length (cycles A) \<noteq> length (cycles B) \<Longrightarrow>
     \<exists>e. filter is_cycle_entry (displayDifferences A B) = [e]
       \<and> (length (cycles A) < length (cycles B) \<longrightarrow>
            diff_type e = ''removed'' \<and> diff_icon e = ''fas fa-exclamation-triangle'')
       \<and> (length (cycles B) < length (cycles A) \<longrightarrow>
            diff_type e = ''added'' \<and> diff_icon e = ''fas fa-check-circle'')"
  by (simp add: filter_cycle_entries cycles_changed_def Let_def)

theorem cycle_count_entry_witness:
  "length (cycles (saved_of (with_pids []) [])) \<noteq> length (cycles (saved_of (with_pids []) [0]))
   \<and> length (cycles (saved_of (with_pids []) [])) < length (cycles (saved_of (with_pids []) [0]))
   \<and> (\<exists>e. filter is_cycle_entry
              (displayDifferences (saved_of (with_pids []) []) (saved_of (with_pids []) [0])) = [e]
          \<and> diff_type e = ''removed'' \<and> diff_icon e = ''fas fa-exclamation-triangle'')
   \<and> (\<exists>e. filter is_cycle_entry
              (displayDifferences (saved_of (with_pids []) [0]) (saved_of (with_pids []) [])) = [e]
          \<and> diff_type e = ''added'' \<and> diff_icon e = ''fas fa-check-circle'')"
proof -
  have a: "length (cycles (saved_of (with_pids []) [])) \<noteq> length (cycles (saved_of (with_pids []) [0]))"
    and b: "length (cycles (saved_of (with_pids []) [])) < length (cycles (saved_of (with_pids []) [0]))"
    and c: "length (cycles (saved_of (with_pids []) [0])) \<noteq> length (cycles (saved_of (with_pids []) []))"
    by (simp_all add: saved_of_def)
  from cycle_count_entry[OF a] b
  have 1: "\<exists>e. filter is_cycle_entry
              (displayDifferences (saved_of (with_pids []) []) (saved_of (with_pids []) [0])) = [e]
          \<and> diff_type e = ''removed'' \<and> diff_icon e = ''fas fa-exclamation-triangle''"
    by blast
  from cycle_count_entry[OF c] b
  have 2: "\<exists>e. filter is_cycle_entry
              (displayDifferences (saved_of (with_pids []) [0]) (saved_of (with_pids []) [])) = [e]
          \<and> diff_type e = ''added'' \<and> diff_icon e = ''fas fa-check-circle''"
    by blast
  from a b 1 2 show ?thesis by blast
qed

text \<open>
  The claim as stated fails where B has one cycle and A has none: the delta is positive
  and the entry is of type \<open>removed\<close>, not \<open>added\<close>.
\<close>

theorem cycle_count_entry_counterexample:
  "int (length (cycles (saved_of (with_pids []) [0])))
     - int (length (cycles (saved_of (with_pids []) []))) > 0
   \<and> map diff_type (filter is_cycle_entry
        (displayDifferences (saved_of (with_pids []) []) (saved_of (with_pids []) [0])))
      = [''removed'']
   \<and> map diff_type (filter is_cycle_entry
        (displayDifferences (saved_of (with_pids []) []) (saved_of (with_pids []) [0])))
      \<noteq> [''added'']"
  by (simp add: filter_cycle_entries cycles_changed_def saved_of_def)

section \<open>The neighbourhood of a hovered node\<close>

text \<open>
  C3, as the code has it. For every list of links and every focus node id, the handler
  selects exactly the links whose source or target is the focus, in order; its node set
  is the set of endpoints of the selected links, without repetition, and its link set
  is the selected links (found again by their ids). The focus is in the node set exactly
  when some link touches it. For a focus that no link touches, both sets are empty, and
  nothing is raised.
\<close>

theorem mouseover_neighbourhood:
  "snd (mouseover_connected ls d) = filter (incident d) ls
   \<and> map link_id (snd (mouseover_connected ls d)) = map link_id (filter (incident d) ls)
   \<and> set (fst (mouseover_connected ls d))
       = (\<Union>l \<in> set (filter (incident d) ls). {link_source l, link_target l})
   \<and> distinct (fst (mouseover_connected ls d))
   \<and> (d \<in> set (fst (mouseover_connected ls d)) \<longleftrightarrow> filter (incident d) ls \<noteq> [])
   \<and> (filter (incident d) ls = [] \<longrightarrow> mouseover_connected ls d = ([], []))"
proof -
  have nodes: "set (fst (mouseover_connected ls d))
       = (\<Union>l \<in> set (filter (incident d) ls). {link_source l, link_target l})"
    by (auto simp: mouseover_connected_eq set_new_Set)
  have focus: "d \<in> set (fst (mouseover_connected ls d)) \<longleftrightarrow> filter (incident d) ls \<noteq> []"
  proof
    assume "d \<in> set (fst (mouseover_connected ls d))"
    with nodes obtain l where "l \<in> set (filter (incident d) ls)" by auto
    then show "filter (incident d) ls \<noteq> []" by (metis empty_iff empty_set)
  next
    assume "filter (incident d) ls \<noteq> []"
    then obtain l where l: "l \<in> set ls" "incident d l"
      by (auto simp: filter_empty_conv)
    then have "d \<in> {link_source l, link_target l}" by (auto simp: incident_def)
    with l nodes show "d \<in> set (fst (mouseover_connected ls d))" by auto
  qed
  have none: "filter (incident d) ls = [] \<longrightarrow> mouseover_connected ls d = ([], [])"
    by (simp add: mouseover_connected_eq new_Set_def)
  show ?thesis
    using nodes focus none
    by (simp add: mouseover_connected_eq distinct_new_Set)
qed

theorem mouseover_neighbourhood_witness:
  "mouseover_connected chain_links ''P1''
     = ([''P1'', ''R1''], [hd chain_links])
   \<and> filter (incident ''P3'') chain_links = []
   \<and> mouseover_connected chain_links ''P3'' = ([], [])"
proof -
  have e: "filter (incident ''P3'') chain_links = []"
    by (simp add: chain_links_def incident_def)
  with mouseover_neighbourhood[of chain_links "''P3''"]
  have "mouseover_connected chain_links ''P3'' = ([], [])" by blast
  moreover have "mouseover_connected chain_links ''P1'' = ([''P1'', ''R1''], [hd chain_links])"
    by (simp add: mouseover_connected_def chain_links_def set_add_def)
  ultimately show ?thesis using e by blast
qed

text \<open>
  The claim as stated fails for a focus that no link touches: the node set is then
  empty, not the singleton of the focus.
\<close>

theorem mouseover_neighbourhood_counterexample:
  "filter (incident ''P3'') chain_links = []
   \<and> set (fst (mouseover_connected chain_links ''P3'')) = {}
   \<and> set (fst (mouseover_connected chain_links ''P3'')) \<noteq> {''P3''}"
  by (simp add: mouseover_connected_def chain_links_def set_add_def incident_def)

section \<open>The derived wait-for graph\<close>





section \<open>Composite keys in the builders\<close>

text \<open>
  C2, as the code has it. No build raises an error for a key without \<open>_\<close>: the split
  gives the whole key as the pid part and \<open>undefined\<close> as the resource id. With a
  positive count the RAG build emits the link for that key, between \<open>P{key}\<close> and
  \<open>Rundefined\<close>, and does not drop it; the derived wait-for build reads the pid with
  \<open>parseInt\<close> and lets a request under such a key wait for every positive allocation
  whose key has no \<open>_\<close> either and whose pid differs.
\<close>

theorem key_without_separator:
  "CHR ''_'' \<notin> set key \<Longrightarrow>
     parse_key key = (JStr key, JUndefined)
     \<and> ((key, count) \<in> set (allocation s) \<and> count > 0 \<longrightarrow>
          \<lparr>link_source = ''P'' @ key, link_target = ''Rundefined'', link_type = Allocation,
           link_weight = Some count, link_id = ''alloc_'' @ key\<rparr>
            \<in> set (links (buildRAGGraph s)))
     \<and> ((key, count) \<in> set (request s) \<and> count > 0 \<longrightarrow>
          \<lparr>link_source = ''Rundefined'', link_target = ''P'' @ key, link_type = Request,
           link_weight = Some count, link_id = ''req_'' @ key\<rparr>
            \<in> set (links (buildRAGGraph s)))
     \<and> ((key, count) \<in> set (request s) \<and> count > 0
          \<and> (akey, acount) \<in> set (allocation s) \<and> acount > 0 \<and> CHR ''_'' \<notin> set akey
          \<and> strict_ne (parseInt akey) (parseInt key)
          \<longrightarrow> wfg_edge (derive_edges s) (parseInt key) (parseInt akey))"
proof -
  assume k: "CHR ''_'' \<notin> set key"
  then have pk: "parse_key key = (JStr key, JUndefined)" by (rule parse_key_no_sep)
  have al: "(key, count) \<in> set (allocation s) \<and> count > 0 \<longrightarrow>
          \<lparr>link_source = ''P'' @ key, link_target = ''Rundefined'', link_type = Allocation,
           link_weight = Some count, link_id = ''alloc_'' @ key\<rparr>
            \<in> set (links (buildRAGGraph s))"
  proof
    assume a: "(key, count) \<in> set (allocation s) \<and> count > 0"
    have "allocation_link key count
            = \<lparr>link_source = ''P'' @ key, link_target = ''Rundefined'', link_type = Allocation,
               link_weight = Some count, link_id = ''alloc_'' @ key\<rparr>"
      by (simp add: allocation_link_def pk)
    moreover from a have "allocation_link key count \<in> set (links (buildRAGGraph s))"
      unfolding links_buildRAGGraph by force
    ultimately show "\<lparr>link_source = ''P'' @ key, link_target = ''Rundefined'',
           link_type = Allocation, link_weight = Some count, link_id = ''alloc_'' @ key\<rparr>
            \<in> set (links (buildRAGGraph s))"
      by simp
  qed
  have rq: "(key, count) \<in> set (request s) \<and> count > 0 \<longrightarrow>
          \<lparr>link_source = ''Rundefined'', link_target = ''P'' @ key, link_type = Request,
           link_weight = Some count, link_id = ''req_'' @ key\<rparr>
            \<in> set (links (buildRAGGraph s))"
  proof
    assume a: "(key, count) \<in> set (request s) \<and> count > 0"
    have "request_link key count
            = \<lparr>link_source = ''Rundefined'', link_target = ''P'' @ key, link_type = Request,
               link_weight = Some count, link_id = ''req_'' @ key\<rparr>"
      by (simp add: request_link_def pk)
    moreover from a have "request_link key count \<in> set (links (buildRAGGraph s))"
      unfolding links_buildRAGGraph by force
    ultimately show "\<lparr>link_source = ''Rundefined'', link_target = ''P'' @ key,
           link_type = Request, link_weight = Some count, link_id = ''req_'' @ key\<rparr>
            \<in> set (links (buildRAGGraph s))"
      by simp
  qed
  have wf: "(key, count) \<in> set (request s) \<and> count > 0
          \<and> (akey, acount) \<in> set (allocation s) \<and> acount > 0 \<and> CHR ''_'' \<notin> set akey
          \<and> strict_ne (parseInt akey) (parseInt key)
          \<longrightarrow> wfg_edge (derive_edges s) (parseInt key) (parseInt akey)"
  proof
    assume a: "(key, count) \<in> set (request s) \<and> count > 0
          \<and> (akey, acount) \<in> set (allocation s) \<and> acount > 0 \<and> CHR ''_'' \<notin> set akey
          \<and> strict_ne (parseInt akey) (parseInt key)"
    then have pa: "parse_key akey = (JStr akey, JUndefined)" by (simp add: parse_key_no_sep)
    have "key_pid key = parseInt key" "key_rid key = JUndefined"
      "key_pid akey = parseInt akey" "key_rid akey = JUndefined"
      by (simp_all add: key_pid_def key_rid_def pk pa js_parseInt_def)
    with a show "wfg_edge (derive_edges s) (parseInt key) (parseInt akey)"
      unfolding wfg_edge_derive_edges by force
  qed
  from pk al rq wf show ?thesis by blast
qed

theorem key_without_separator_witness:
  "CHR ''_'' \<notin> set ''7''
   \<and> (''7'', 1) \<in> set (request (snapshot_of [(''8'', 1)] [(''7'', 1)])) \<and> (1::int) > 0
   \<and> (''8'', 1) \<in> set (allocation (snapshot_of [(''8'', 1)] [(''7'', 1)]))
   \<and> CHR ''_'' \<notin> set ''8'' \<and> strict_ne (parseInt ''8'') (parseInt ''7'')
   \<and> \<lparr>link_source = ''Rundefined'', link_target = ''P7'', link_type = Request,
       link_weight = Some 1, link_id = ''req_7''\<rparr>
        \<in> set (links (buildRAGGraph (snapshot_of [(''8'', 1)] [(''7'', 1)])))
   \<and> wfg_edge (derive_edges (snapshot_of [(''8'', 1)] [(''7'', 1)])) (parseInt ''7'') (parseInt ''8'')"
proof -
  have h: "CHR ''_'' \<notin> set ''7''" "CHR ''_'' \<notin> set ''8''"
    "(''7'', 1) \<in> set (request (snapshot_of [(''8'', 1)] [(''7'', 1)]))"
    "(''8'', 1) \<in> set (allocation (snapshot_of [(''8'', 1)] [(''7'', 1)]))"
    by (simp_all add: snapshot_of_def)
  have ne: "strict_ne (parseInt ''8'') (parseInt ''7'')" by code_simp
  from key_without_separator
         [OF h(1), of 1 "snapshot_of [(''8'', 1)] [(''7'', 1)]" "''8''" 1] h ne
  show ?thesis by simp
qed

text \<open>
  The claim as stated fails on the allocation \<open>{"bad": 1}\<close>: the RAG build returns, and
  its one link is the link for that key. On the request \<open>{"7": 1}\<close> against the
  allocation \<open>{"8": 1}\<close> the derived build returns the adjacency \<open>{"7": [8]}\<close>.
\<close>

theorem key_without_separator_counterexample:
  "CHR ''_'' \<notin> set ''bad''
   \<and> links (buildRAGGraph (snapshot_of [(''bad'', 1)] []))
       = [\<lparr>link_source = ''Pbad'', link_target = ''Rundefined'', link_type = Allocation,
           link_weight = Some 1, link_id = ''alloc_bad''\<rparr>]
   \<and> derive_edges (snapshot_of [(''8'', 1)] [(''7'', 1)]) = [(''7'', [JInt 8])]"
proof -
  have "links (buildRAGGraph (snapshot_of [(''bad'', 1)] []))
       = [\<lparr>link_source = ''Pbad'', link_target = ''Rundefined'', link_type = Allocation,
           link_weight = Some 1, link_id = ''alloc_bad''\<rparr>]"
    by code_simp
  moreover have "derive_edges (snapshot_of [(''8'', 1)] [(''7'', 1)]) = [(''7'', [JInt 8])]"
    by code_simp
  ultimately show ?thesis by simp
qed

text \<open>
  C5 at a resource id that contains \<open>_\<close>. The split is at every \<open>_\<close> and the second
  piece is taken: for the allocation key \<open>1_disk_0\<close> the link of the RAG goes to
  \<open>Rdisk\<close>, while the node of the resource \<open>disk_0\<close> is \<open>Rdisk_0\<close>; and a request for
  \<open>A_B\<close> waits for the holder of \<open>A_C\<close>.
\<close>

theorem key_with_two_separators:
  "parse_key ''1_disk_0'' = (JStr ''1'', JStr ''disk'')
   \<and> links (buildRAGGraph disk_snapshot)
       = [\<lparr>link_source = ''P1'', link_target = ''Rdisk'', link_type = Allocation,
           link_weight = Some 2, link_id = ''alloc_1_disk_0''\<rparr>]
   \<and> map node_id (nodes (buildRAGGraph disk_snapshot)) = [JStr ''P1'', JStr ''Rdisk_0'']
   \<and> derive_edges (snapshot_of [(''2_A_C'', 1)] [(''1_A_B'', 1)]) = [(''1'', [JInt 2])]"
proof -
  have 1: "parse_key ''1_disk_0'' = (JStr ''1'', JStr ''disk'')" by code_simp
  have 2: "links (buildRAGGraph disk_snapshot)
       = [\<lparr>link_source = ''P1'', link_target = ''Rdisk'', link_type = Allocation,
           link_weight = Some 2, link_id = ''alloc_1_disk_0''\<rparr>]"
    by code_simp
  have 3: "map node_id (nodes (buildRAGGraph disk_snapshot)) = [JStr ''P1'', JStr ''Rdisk_0'']"
    by code_simp
  have 4: "derive_edges (snapshot_of [(''2_A_C'', 1)] [(''1_A_B'', 1)]) = [(''1'', [JInt 2])]"
    by code_simp
  from 1 2 3 4 show ?thesis by blast
qed

section \<open>Invariants of the built graphs\<close>







section \<open>Saving a snapshot\<close>

text \<open>
  C4 at a live state with one cycle. \<open>saveSnapshot\<close> copies the snapshot and the WFG
  through JSON but takes the cycles with \<open>[...this.currentCycles]\<close>, a new outer array
  of the same inner arrays. The saved snapshot holds the address of the live cycle
  array; after a later write into that array (\<open>currentCycles[0].push(3)\<close>) the saved
  snapshot, itself untouched, shows the cycle \<open>[1, 2, 3]\<close> where it showed \<open>[1, 2]\<close>.
\<close>

theorem saved_cycles_follow_live_array:
  "currentCycles saved_state = Some [0]
   \<and> map cycles (savedSnapshots saved_state) = [[0]]
   \<and> map (saved_cycles saved_state) (savedSnapshots saved_state) = [[[JInt 1, JInt 2]]]
   \<and> savedSnapshots (mutate (WriteCycleArray 0 [JInt 1, JInt 2, JInt 3]) saved_state)
       = savedSnapshots saved_state
   \<and> map (saved_cycles (mutate (WriteCycleArray 0 [JInt 1, JInt 2, JInt 3]) saved_state))
         (savedSnapshots (mutate (WriteCycleArray 0 [JInt 1, JInt 2, JInt 3]) saved_state))
       = [[[JInt 1, JInt 2, JInt 3]]]"
  by (simp add: saved_state_def saveSnapshot_def live_state_def saved_cycles_def Let_def)

end
